theory Spec2Isabelle
  imports Complex_Main
begin

section \<open>Data model of \<open>spline_interpolation.py\<close>\<close>

text \<open>
  The exceptions the function can raise: \<open>ValueError\<close> comes from the constructor of
  \<open>scipy.interpolate.interp1d\<close>, \<open>IndexError\<close> from NumPy indexing, \<open>OverflowError\<close>
  from NumPy's conversion of a Python int that is used as an index.
\<close>

datatype error = ValueError | IndexError | OverflowError

text \<open>
  One line printed by the \<open>else\<close> branch (line 39):
  \<open>Not enough valid data to interpolate at position (x, y). Skipping...\<close>
\<close>

datatype diag = NotEnoughData nat nat

text \<open>
  A three-dimensional \<open>numpy.ndarray\<close>: its \<open>shape\<close> \<open>(time, x, y)\<close> and its cells as
  nested lists, \<open>cells a ! t ! x ! y\<close>. The shape is a field of its own because NumPy
  has arrays such as \<open>(0, 3, 3)\<close> or \<open>(3, 0, 0)\<close>, which nested lists alone cannot tell
  apart. The element type is a parameter.
\<close>

record 'a ndarray =
  shape :: "nat \<times> nat \<times> nat"
  cells :: "'a list list list"

definition well_shaped :: "'a ndarray \<Rightarrow> bool" where
  "well_shaped a =
     (case shape a of (T, X, Y) \<Rightarrow>
        length (cells a) = T \<and>
        (\<forall>plane \<in> set (cells a). length plane = X \<and> (\<forall>row \<in> set plane. length row = Y)))"

definition getitem :: "'a ndarray \<Rightarrow> nat \<Rightarrow> nat \<Rightarrow> nat \<Rightarrow> 'a" where
  "getitem a t x y = cells a ! t ! x ! y"

text \<open>
  NumPy resolves an integer index \<open>i\<close> on an axis of length \<open>n\<close>: \<open>0 \<le> i < n\<close> is taken as
  it is and \<open>-n \<le> i < 0\<close> counts from the end. Any other index fails: a Python int that
  does not fit the signed 64-bit index type raises \<open>OverflowError\<close> when it is converted,
  one that fits raises \<open>IndexError\<close>. The length of an axis fits that type itself, so
  an index within \<open>[-n, n)\<close> always converts; with the cases in this order the
  definition needs no bound on \<open>n\<close>.
\<close>

definition normalize_index :: "nat \<Rightarrow> int \<Rightarrow> error + nat" where
  "normalize_index n i =
     (if 0 \<le> i \<and> i < int n then Inr (nat i)
      else if - int n \<le> i \<and> i < 0 then Inr (nat (i + int n))
      else if i < - (2 ^ 63) \<or> 2 ^ 63 \<le> i then Inl OverflowError
      else Inl IndexError)"

text \<open>
  \<open>a[i, x, y] = v\<close> (line 37). The first index is the caller's \<open>missing_index\<close>, a Python
  int; \<open>x\<close> and \<open>y\<close> come from \<open>range(x_dim)\<close> and \<open>range(y_dim)\<close>.
\<close>

definition setitem :: "'a ndarray \<Rightarrow> int \<Rightarrow> nat \<Rightarrow> nat \<Rightarrow> 'a \<Rightarrow> error + 'a ndarray" where
  "setitem a i x y v =
     (case shape a of (T, X, Y) \<Rightarrow>
        (case normalize_index T i of
           Inl e \<Rightarrow> Inl e
         | Inr t \<Rightarrow>
             Inr (a\<lparr>cells := (cells a)[t := (cells a ! t)[x := (cells a ! t ! x)[y := v]]]\<rparr>)))"

text \<open>
  \<open>time_series[valid_time_points]\<close> (line 29), where \<open>valid_time_points\<close> is
  \<open>np.array(valid_indices)\<close>. The array built from a non-empty list of ints is an integer
  array and selects the listed positions. The array built from the empty list has dtype
  \<open>float64\<close>, and NumPy refuses an index array that is not of integer or boolean type
  with \<open>IndexError\<close>. The listed positions come from \<open>range(time_steps)\<close>, so they are
  never out of range.
\<close>

definition fancy_index :: "'a list \<Rightarrow> nat list \<Rightarrow> error + 'a list" where
  "fancy_index time_series valid_time_points =
     (if valid_time_points = [] then Inl IndexError
      else Inr (map (\<lambda>i. time_series ! i) valid_time_points))"

section \<open>The library call\<close>

text \<open>
  \<open>interp1d(x, y, kind='cubic', fill_value="extrapolate")\<close> of \<open>scipy.interpolate\<close> is not
  code of this repository. Its constructor raises \<open>ValueError\<close> when \<open>x\<close> and \<open>y\<close> differ
  in length and when a cubic spline is asked for fewer than four points (order plus
  one); otherwise it returns a callable, and with \<open>fill_value="extrapolate"\<close> the callable
  raises no bounds error: it takes an abscissa inside the fitted range or outside it.
  The number the callable returns is floating-point work of the library; it is the
  parameter \<open>spline\<close>.

  The callable is modelled for the abscissae NumPy holds as a 64-bit number, which is
  every index of an array and every Python int from \<open>-2^63\<close> up to \<open>2^64 - 1\<close>. A Python
  int beyond that becomes an object array, which the callable refuses with
  \<open>ValueError\<close>; that path is not part of the model, and the statement below about
  indices outside \<open>[-T, T)\<close> is made for indices that fit the signed 64-bit type.
\<close>

definition interp1d_cubic ::
  "(nat list \<Rightarrow> 'a list \<Rightarrow> int \<Rightarrow> 'a) \<Rightarrow> nat list \<Rightarrow> 'a list \<Rightarrow> error + (int \<Rightarrow> 'a)" where
  "interp1d_cubic spline x y =
     (if length x \<noteq> length y then Inl ValueError
      else if length x < 4 then Inl ValueError
      else Inr (spline x y))"

section \<open>The function\<close>

text \<open>A \<open>for\<close> loop whose body may raise: the first exception ends the loop.\<close>

fun for_each :: "'i list \<Rightarrow> ('i \<Rightarrow> 's \<Rightarrow> error + 's) \<Rightarrow> 's \<Rightarrow> error + 's" where
  "for_each [] body s = Inr s"
| "for_each (i # rest) body s =
     (case body i s of Inl e \<Rightarrow> Inl e | Inr s' \<Rightarrow> for_each rest body s')"

text \<open>
  Lines 23 to 39, the body of the two loops at one location \<open>(x, y)\<close>. The state is the
  array \<open>interpolated_data\<close> and what has been printed so far. The time series is read
  from \<open>data_3d\<close>, the input, never from the copy being written. The library call
  \<open>interp1d\<close> is a parameter.
\<close>

definition loop_body ::
  "(nat list \<Rightarrow> 'a list \<Rightarrow> error + (int \<Rightarrow> 'a)) \<Rightarrow> 'a ndarray \<Rightarrow> int \<Rightarrow> nat \<Rightarrow> nat \<Rightarrow>
   'a ndarray \<times> diag list \<Rightarrow> error + 'a ndarray \<times> diag list" where
  "loop_body interp1d data_3d missing_index x y s =
     (case s of (interpolated_data, printed) \<Rightarrow>
       (case shape data_3d of (time_steps, x_dim, y_dim) \<Rightarrow>
         (let time_series = map (\<lambda>t. getitem data_3d t x y) [0..<time_steps];
              valid_indices = filter (\<lambda>i. int i \<noteq> missing_index) [0..<time_steps];
              valid_time_points = valid_indices
          in (case fancy_index time_series valid_time_points of
                Inl e \<Rightarrow> Inl e
              | Inr valid_data_points \<Rightarrow>
                  (if 2 \<le> length valid_data_points then
                     (case interp1d valid_time_points valid_data_points of
                        Inl e \<Rightarrow> Inl e
                      | Inr interpolator \<Rightarrow>
                          (case setitem interpolated_data missing_index x y
                                  (interpolator missing_index) of
                             Inl e \<Rightarrow> Inl e
                           | Inr interpolated_data' \<Rightarrow> Inr (interpolated_data', printed)))
                   else Inr (interpolated_data, printed @ [NotEnoughData x y]))))))"

text \<open>
  The whole function: \<open>np.copy\<close> makes \<open>interpolated_data\<close> a fresh array equal to the
  input, the loops run over \<open>range(x_dim)\<close> and \<open>range(y_dim)\<close>, and the copy is
  returned. The result also carries the printed lines.
\<close>

definition interpolate_missing_data_3d_spline ::
  "(nat list \<Rightarrow> 'a list \<Rightarrow> error + (int \<Rightarrow> 'a)) \<Rightarrow> 'a ndarray \<Rightarrow> int \<Rightarrow>
   error + 'a ndarray \<times> diag list" where
  "interpolate_missing_data_3d_spline interp1d data_3d missing_index =
     (case shape data_3d of (time_steps, x_dim, y_dim) \<Rightarrow>
        for_each [0..<x_dim]
          (\<lambda>x. for_each [0..<y_dim] (loop_body interp1d data_3d missing_index x))
          (data_3d, []))"

section \<open>Concrete values for worked examples\<close>

text \<open>
  A float is a number or NaN. For exactly four samples the not-a-knot cubic spline is
  the cubic polynomial through them, here in Lagrange form over the reals; a NaN among
  the samples makes the library return NaN. The worked examples below call it with four
  samples only.
\<close>

datatype val = NaN | Num real

fun num_of :: "val \<Rightarrow> real" where
  "num_of (Num r) = r"
| "num_of NaN = 0"

definition lagrange :: "(real \<times> real) list \<Rightarrow> real \<Rightarrow> real" where
  "lagrange pts t =
     sum_list (map (\<lambda>(xi, yi).
        yi * prod_list (map (\<lambda>(xj, yj). (t - xj) / (xi - xj))
                          (filter (\<lambda>(xj, yj). xj \<noteq> xi) pts))) pts)"

definition polynomial_spline :: "nat list \<Rightarrow> val list \<Rightarrow> int \<Rightarrow> val" where
  "polynomial_spline x y t =
     (if NaN \<in> set y then NaN
      else Num (lagrange (zip (map real x) (map num_of y)) (real_of_int t)))"

definition vol :: "nat \<times> nat \<times> nat \<Rightarrow> 'a list list list \<Rightarrow> 'a ndarray" where
  "vol sh c = \<lparr>shape = sh, cells = c\<rparr>"

text \<open>
  Two volumes of shape \<open>(5, 1, 2)\<close> whose slice 2 is corrupt, and what the function
  returns for them with \<open>missing_index = 2\<close>. At location \<open>(0, 0)\<close> both hold the cubes
  \<open>0, 1, _, 27, 64\<close>; at \<open>(0, 1)\<close> one is constant and the other falls by one each step.
\<close>

definition cube_volume :: "val ndarray" where
  "cube_volume = vol (5, 1, 2)
     [[[Num 0, Num 5]], [[Num 1, Num 5]], [[Num 100, Num 9]], [[Num 27, Num 5]], [[Num 64, Num 5]]]"

definition cube_volume_filled :: "val ndarray" where
  "cube_volume_filled = vol (5, 1, 2)
     [[[Num 0, Num 5]], [[Num 1, Num 5]], [[Num 8, Num 5]], [[Num 27, Num 5]], [[Num 64, Num 5]]]"

definition other_volume :: "val ndarray" where
  "other_volume = vol (5, 1, 2)
     [[[Num 0, Num 9]], [[Num 1, Num 8]], [[Num 100, Num 70]], [[Num 27, Num 6]], [[Num 64, Num 5]]]"

definition other_volume_filled :: "val ndarray" where
  "other_volume_filled = vol (5, 1, 2)
     [[[Num 0, Num 9]], [[Num 1, Num 8]], [[Num 8, Num 7]], [[Num 27, Num 6]], [[Num 64, Num 5]]]"

text \<open>
  Small volumes for the edge cases: one, two, three and four time steps, and five time
  steps whose samples are all NaN around a good value.
\<close>

definition three_steps :: "val ndarray" where
  "three_steps = vol (3, 1, 1) [[[Num 1]], [[Num 0]], [[Num 3]]]"

definition one_step :: "val ndarray" where
  "one_step = vol (1, 1, 1) [[[Num 7]]]"

definition two_steps :: "val ndarray" where
  "two_steps = vol (2, 1, 2) [[[NaN, Num 1]], [[Num 7, Num 8]]]"

definition nan_volume :: "val ndarray" where
  "nan_volume = vol (5, 1, 1) [[[NaN]], [[NaN]], [[Num 7]], [[NaN]], [[NaN]]]"

definition nan_volume_filled :: "val ndarray" where
  "nan_volume_filled = vol (5, 1, 1) [[[NaN]], [[NaN]], [[NaN]], [[NaN]], [[NaN]]]"

definition four_steps :: "val ndarray" where
  "four_steps = vol (4, 1, 1) [[[Num 1]], [[Num 2]], [[Num 3]], [[Num 4]]]"

definition four_steps_wrapped :: "val ndarray" where
  "four_steps_wrapped = vol (4, 1, 1) [[[Num 1]], [[Num 2]], [[Num 3]], [[Num 0]]]"

section \<open>Names for the intermediate values of the loop body\<close>

text \<open>
  \<open>valid_indices\<close> (line 27), \<open>time_series\<close> (line 24) and \<open>valid_data_points\<close>
  (line 29) as functions of the input, so that lemmas can speak about them.
\<close>

definition valid_indices :: "nat \<Rightarrow> int \<Rightarrow> nat list" where
  "valid_indices time_steps missing_index =
     filter (\<lambda>i. int i \<noteq> missing_index) [0..<time_steps]"

definition time_series_at :: "'a ndarray \<Rightarrow> nat \<Rightarrow> nat \<Rightarrow> 'a list" where
  "time_series_at data_3d x y = map (\<lambda>t. getitem data_3d t x y) [0..<fst (shape data_3d)]"

definition valid_data_at :: "'a ndarray \<Rightarrow> int \<Rightarrow> nat \<Rightarrow> nat \<Rightarrow> 'a list" where
  "valid_data_at data_3d missing_index x y =
     map (\<lambda>i. time_series_at data_3d x y ! i)
         (valid_indices (fst (shape data_3d)) missing_index)"

section \<open>Loops that may raise\<close>

lemma for_each_preserves:
  assumes "for_each js body s = Inr s'" and "P s"
    and "\<And>j s s'. j \<in> set js \<Longrightarrow> P s \<Longrightarrow> body j s = Inr s' \<Longrightarrow> P s'"
  shows "P s'"
  using assms
proof (induction js arbitrary: s)
  case Nil
  then show ?case by simp
next
  case (Cons j js)
  from Cons.prems(1) obtain s1 where b: "body j s = Inr s1" and r: "for_each js body s1 = Inr s'"
    by (auto split: sum.splits)
  have p1: "P s1" using Cons.prems(3)[OF _ Cons.prems(2) b] by simp
  show ?case
  proof (rule Cons.IH[OF r p1])
    fix k t t' assume "k \<in> set js" "P t" "body k t = Inr t'"
    then show "P t'" using Cons.prems(3)[of k t t'] by simp
  qed
qed

lemma for_each_establishes:
  assumes "for_each js body s = Inr s'" and "i \<in> set js" and "J s"
    and keep: "\<And>j s s'. j \<in> set js \<Longrightarrow> J s \<Longrightarrow> body j s = Inr s' \<Longrightarrow> J s'"
    and est: "\<And>s s'. J s \<Longrightarrow> body i s = Inr s' \<Longrightarrow> Q s'"
    and stab: "\<And>j s s'. j \<in> set js \<Longrightarrow> J s \<Longrightarrow> Q s \<Longrightarrow> body j s = Inr s' \<Longrightarrow> Q s'"
  shows "Q s'"
  using assms
proof (induction js arbitrary: s)
  case Nil
  from Nil.prems(2) show ?case by simp
next
  case (Cons j js)
  from Cons.prems(1) obtain s1 where b: "body j s = Inr s1" and r: "for_each js body s1 = Inr s'"
    by (auto split: sum.splits)
  have J1: "J s1" using Cons.prems(4)[OF _ Cons.prems(3) b] by simp
  show ?case
  proof (cases "j = i")
    case True
    then have Q1: "Q s1" using Cons.prems(5)[OF Cons.prems(3)] b by simp
    have "J s' \<and> Q s'"
    proof (rule for_each_preserves[OF r, where P = "\<lambda>s. J s \<and> Q s"])
      show "J s1 \<and> Q s1" using J1 Q1 by simp
    next
      fix k t t' assume "k \<in> set js" "J t \<and> Q t" "body k t = Inr t'"
      then show "J t' \<and> Q t'" using Cons.prems(4)[of k t t'] Cons.prems(6)[of k t t'] by simp
    qed
    then show ?thesis by simp
  next
    case False
    then have ijs: "i \<in> set js" using Cons.prems(2) by simp
    show ?thesis
    proof (rule Cons.IH[OF r ijs J1])
      fix k t t' assume "k \<in> set js" "J t" "body k t = Inr t'"
      then show "J t'" using Cons.prems(4)[of k t t'] by simp
    next
      fix t t' assume "J t" "body i t = Inr t'"
      then show "Q t'" using Cons.prems(5)[of t t'] by simp
    next
      fix k t t' assume "k \<in> set js" "J t" "Q t" "body k t = Inr t'"
      then show "Q t'" using Cons.prems(6)[of k t t'] by simp
    qed
  qed
qed

lemma for_each_total:
  assumes "P s"
    and "\<And>j s. j \<in> set js \<Longrightarrow> P s \<Longrightarrow> \<exists>s'. body j s = Inr s' \<and> P s'"
  shows "\<exists>s'. for_each js body s = Inr s' \<and> P s'"
  using assms
proof (induction js arbitrary: s)
  case Nil
  then show ?case by simp
next
  case (Cons j js)
  from Cons.prems(2)[of j s] Cons.prems(1) obtain s1 where b: "body j s = Inr s1" and p: "P s1"
    by auto
  have "\<exists>s'. for_each js body s1 = Inr s' \<and> P s'"
  proof (rule Cons.IH[OF p])
    fix k t assume "k \<in> set js" "P t"
    then show "\<exists>t'. body k t = Inr t' \<and> P t'" using Cons.prems(2)[of k t] by simp
  qed
  then show ?case using b by simp
qed

lemma for_each_first_raises:
  "0 < n \<Longrightarrow> body 0 s = Inl e \<Longrightarrow> for_each [0..<n] body s = Inl e"
  by (simp add: upt_conv_Cons)

section \<open>Writes into the array\<close>

lemma normalize_index_lt: "normalize_index n i = Inr t \<Longrightarrow> t < n"
  by (auto simp: normalize_index_def split: if_splits)

lemma setitem_shape: "setitem a i x y v = Inr a' \<Longrightarrow> shape a' = shape a"
  by (auto simp: setitem_def split: prod.splits sum.splits)

lemma setitem_cells:
  "setitem a i x y v = Inr a' \<Longrightarrow>
   \<exists>t. normalize_index (fst (shape a)) i = Inr t \<and>
       cells a' = (cells a)[t := (cells a ! t)[x := (cells a ! t ! x)[y := v]]]"
  by (auto simp: setitem_def split: prod.splits sum.splits)

lemma setitem_well_shaped:
  assumes "well_shaped a" and "setitem a i x y v = Inr a'"
  shows "well_shaped a'"
proof -
  obtain T X Y where sh: "shape a = (T, X, Y)" by (cases "shape a") auto
  from setitem_cells[OF assms(2)] obtain t where
    t: "normalize_index T i = Inr t"
    and c: "cells a' = (cells a)[t := (cells a ! t)[x := (cells a ! t ! x)[y := v]]]"
    using sh by auto
  have len: "length (cells a) = T"
    and pl: "\<And>p. p \<in> set (cells a) \<Longrightarrow> length p = X \<and> (\<forall>r \<in> set p. length r = Y)"
    using assms(1) sh by (auto simp: well_shaped_def)
  have tT: "t < T" using normalize_index_lt[OF t] .
  then have pt: "cells a ! t \<in> set (cells a)" using len by simp
  let ?p = "(cells a ! t)[x := (cells a ! t ! x)[y := v]]"
  have rows: "length r = Y" if "r \<in> set ?p" for r
  proof (cases "x < length (cells a ! t)")
    case True
    then have "cells a ! t ! x \<in> set (cells a ! t)" by simp
    then have "length ((cells a ! t ! x)[y := v]) = Y" using pl[OF pt] by simp
    moreover have "r = (cells a ! t ! x)[y := v] \<or> r \<in> set (cells a ! t)"
      using that set_update_subset_insert[of "cells a ! t" x "(cells a ! t ! x)[y := v]"] by blast
    ultimately show ?thesis using pl[OF pt] by blast
  next
    case False
    then have "?p = cells a ! t" by (simp add: list_update_beyond)
    then show ?thesis using that pl[OF pt] by simp
  qed
  have lenp: "length ?p = X" using pl[OF pt] by simp
  have planes: "length p = X \<and> (\<forall>r \<in> set p. length r = Y)" if "p \<in> set (cells a')" for p
  proof -
    have "p = ?p \<or> p \<in> set (cells a)"
      using that c set_update_subset_insert[of "cells a" t ?p] by auto
    then show ?thesis
    proof
      assume "p = ?p"
      then show ?thesis using lenp rows by blast
    next
      assume "p \<in> set (cells a)"
      then show ?thesis using pl by blast
    qed
  qed
  have "shape a' = (T, X, Y)" using sh setitem_shape[OF assms(2)] by simp
  moreover have "length (cells a') = T" using len c by simp
  ultimately show ?thesis using planes by (simp add: well_shaped_def)
qed

lemma setitem_other_slice:
  assumes "setitem a i x y v = Inr a'" and "normalize_index (fst (shape a)) i = Inr t" and "t' \<noteq> t"
  shows "cells a' ! t' = cells a ! t'"
  using setitem_cells[OF assms(1)] assms(2,3) by auto

lemma getitem_setitem:
  assumes "well_shaped a" and "shape a = (T, X, Y)" and "setitem a i x y v = Inr a'"
    and "normalize_index T i = Inr t" and "x < X" and "y < Y"
  shows "getitem a' t' x' y' = (if t' = t \<and> x' = x \<and> y' = y then v else getitem a t' x' y')"
proof -
  from setitem_cells[OF assms(3)] assms(2,4) have
    c: "cells a' = (cells a)[t := (cells a ! t)[x := (cells a ! t ! x)[y := v]]]" by auto
  have tT: "t < length (cells a)"
    using normalize_index_lt[OF assms(4)] assms(1,2) by (auto simp: well_shaped_def)
  then have pt: "cells a ! t \<in> set (cells a)" by simp
  then have xl: "x < length (cells a ! t)" using assms(1,2,5) by (auto simp: well_shaped_def)
  then have "cells a ! t ! x \<in> set (cells a ! t)" by simp
  then have yl: "y < length (cells a ! t ! x)" using pt assms(1,2,6) by (auto simp: well_shaped_def)
  show ?thesis
    by (cases "t' = t"; cases "x' = x"; cases "y' = y") (simp_all add: getitem_def c tT xl yl)
qed

section \<open>The loop body, case by case\<close>

lemma length_valid_indices:
  "length (valid_indices T mi) = (if 0 \<le> mi \<and> mi < int T then T - 1 else T)"
  by (induction T) (auto simp: valid_indices_def)

lemma valid_indices_all:
  "mi < 0 \<or> int T \<le> mi \<Longrightarrow> valid_indices T mi = [0..<T]"
  by (auto simp: valid_indices_def intro: filter_True)

lemma length_valid_data_at:
  "shape d = (T, X, Y) \<Longrightarrow> length (valid_data_at d mi x y) = length (valid_indices T mi)"
  by (simp add: valid_data_at_def)

lemma valid_data_at_all:
  "shape d = (T, X, Y) \<Longrightarrow> mi < 0 \<or> int T \<le> mi \<Longrightarrow> valid_data_at d mi x y = time_series_at d x y"
  by (simp add: valid_data_at_def valid_indices_all time_series_at_def map_nth)

lemma loop_body_empty:
  assumes "shape d = (T, X, Y)" and "valid_indices T mi = []"
  shows "loop_body interp1d d mi x y s = Inl IndexError"
  using assms
  by (cases s) (simp add: loop_body_def fancy_index_def valid_indices_def)

lemma loop_body_skip:
  assumes "shape d = (T, X, Y)" and "length (valid_indices T mi) = 1"
  shows "loop_body interp1d d mi x y (A, pr) = Inr (A, pr @ [NotEnoughData x y])"
proof -
  have "valid_indices T mi \<noteq> []" using assms(2) by auto
  then show ?thesis using assms
    by (simp add: loop_body_def fancy_index_def valid_indices_def Let_def)
qed

lemma loop_body_fit:
  assumes "shape d = (T, X, Y)" and "2 \<le> length (valid_indices T mi)"
  shows "loop_body interp1d d mi x y (A, pr) =
           (case interp1d (valid_indices T mi) (valid_data_at d mi x y) of
              Inl e \<Rightarrow> Inl e
            | Inr f \<Rightarrow> (case setitem A mi x y (f mi) of
                          Inl e \<Rightarrow> Inl e
                        | Inr A' \<Rightarrow> Inr (A', pr)))"
proof -
  have "valid_indices T mi \<noteq> []" using assms(2) by auto
  then show ?thesis using assms
    by (simp add: loop_body_def fancy_index_def valid_indices_def valid_data_at_def
        time_series_at_def Let_def)
qed

lemma loop_body_result:
  assumes "loop_body interp1d d mi x y s = Inr s'"
  shows "fst s' = fst s \<or> (\<exists>v. setitem (fst s) mi x y v = Inr (fst s'))"
  using assms
  by (cases s) (auto simp: loop_body_def Let_def split: prod.splits sum.splits if_splits)

section \<open>The two loops together\<close>

lemma interpolate_preserves:
  assumes "interpolate_missing_data_3d_spline interp1d d mi = Inr s'"
    and "shape d = (T, X, Y)" and "P (d, [])"
    and step: "\<And>x y s s'. x < X \<Longrightarrow> y < Y \<Longrightarrow> P s \<Longrightarrow>
                 loop_body interp1d d mi x y s = Inr s' \<Longrightarrow> P s'"
  shows "P s'"
proof -
  have run: "for_each [0..<X] (\<lambda>x. for_each [0..<Y] (loop_body interp1d d mi x)) (d, []) = Inr s'"
    using assms(1,2) by (simp add: interpolate_missing_data_3d_spline_def)
  show ?thesis
  proof (rule for_each_preserves[where P = P, OF run assms(3)])
    fix x s1 s2
    assume x: "x \<in> set [0..<X]" and p: "P s1"
      and inner: "for_each [0..<Y] (loop_body interp1d d mi x) s1 = Inr s2"
    show "P s2"
    proof (rule for_each_preserves[where P = P, OF inner p])
      fix y t1 t2
      assume "y \<in> set [0..<Y]" "P t1" "loop_body interp1d d mi x y t1 = Inr t2"
      then show "P t2" using step[of x y t1 t2] x by simp
    qed
  qed
qed

lemma interpolate_establishes:
  assumes "interpolate_missing_data_3d_spline interp1d d mi = Inr s'"
    and "shape d = (T, X, Y)" and "x < X" and "y < Y" and "J (d, [])"
    and keep: "\<And>x' y' s s'. x' < X \<Longrightarrow> y' < Y \<Longrightarrow> J s \<Longrightarrow>
                 loop_body interp1d d mi x' y' s = Inr s' \<Longrightarrow> J s'"
    and est: "\<And>s s'. J s \<Longrightarrow> loop_body interp1d d mi x y s = Inr s' \<Longrightarrow> Q s'"
    and stab: "\<And>x' y' s s'. x' < X \<Longrightarrow> y' < Y \<Longrightarrow> J s \<Longrightarrow> Q s \<Longrightarrow>
                 loop_body interp1d d mi x' y' s = Inr s' \<Longrightarrow> Q s'"
  shows "Q s'"
proof -
  have run: "for_each [0..<X] (\<lambda>x. for_each [0..<Y] (loop_body interp1d d mi x)) (d, []) = Inr s'"
    using assms(1,2) by (simp add: interpolate_missing_data_3d_spline_def)
  have inner_keep: "J s2"
    if "x' < X" "J s1" "for_each [0..<Y] (loop_body interp1d d mi x') s1 = Inr s2" for x' s1 s2
  proof (rule for_each_preserves[where P = J, OF that(3) that(2)])
    fix y' t1 t2
    assume "y' \<in> set [0..<Y]" "J t1" "loop_body interp1d d mi x' y' t1 = Inr t2"
    then show "J t2" using keep[of x' y' t1 t2] that(1) by simp
  qed
  have inner_stab: "J s2 \<and> Q s2"
    if "x' < X" "J s1 \<and> Q s1" "for_each [0..<Y] (loop_body interp1d d mi x') s1 = Inr s2" for x' s1 s2
  proof (rule for_each_preserves[where P = "\<lambda>s. J s \<and> Q s", OF that(3) that(2)])
    fix y' t1 t2
    assume "y' \<in> set [0..<Y]" "J t1 \<and> Q t1" "loop_body interp1d d mi x' y' t1 = Inr t2"
    then show "J t2 \<and> Q t2"
      using keep[of x' y' t1 t2] stab[of x' y' t1 t2] that(1) by simp
  qed
  have inner_est: "Q s2"
    if "J s1" "for_each [0..<Y] (loop_body interp1d d mi x) s1 = Inr s2" for s1 s2
  proof (rule for_each_establishes[where i = y and J = J and Q = Q, OF that(2)])
    show "y \<in> set [0..<Y]" using assms(4) by simp
    show "J s1" by (rule that(1))
  next
    fix y' t1 t2
    assume "y' \<in> set [0..<Y]" "J t1" "loop_body interp1d d mi x y' t1 = Inr t2"
    then show "J t2" using keep[of x y' t1 t2] assms(3) by simp
  next
    fix t1 t2
    assume "J t1" "loop_body interp1d d mi x y t1 = Inr t2"
    then show "Q t2" by (rule est)
  next
    fix y' t1 t2
    assume "y' \<in> set [0..<Y]" "J t1" "Q t1" "loop_body interp1d d mi x y' t1 = Inr t2"
    then show "Q t2" using stab[of x y' t1 t2] assms(3) by simp
  qed
  show ?thesis
  proof (rule for_each_establishes[where i = x and J = J and Q = Q, OF run])
    show "x \<in> set [0..<X]" using assms(3) by simp
    show "J (d, [])" by (rule assms(5))
  next
    fix x' s1 s2
    assume "x' \<in> set [0..<X]" "J s1" "for_each [0..<Y] (loop_body interp1d d mi x') s1 = Inr s2"
    then show "J s2" using inner_keep[of x' s1 s2] by simp
  next
    fix s1 s2
    assume "J s1" "for_each [0..<Y] (loop_body interp1d d mi x) s1 = Inr s2"
    then show "Q s2" by (rule inner_est)
  next
    fix x' s1 s2
    assume "x' \<in> set [0..<X]" "J s1" "Q s1"
      "for_each [0..<Y] (loop_body interp1d d mi x') s1 = Inr s2"
    then show "Q s2" using inner_stab[of x' s1 s2] by simp
  qed
qed

lemma interpolate_total:
  assumes "shape d = (T, X, Y)" and "P (d, [])"
    and step: "\<And>x y s. x < X \<Longrightarrow> y < Y \<Longrightarrow> P s \<Longrightarrow>
                 \<exists>s'. loop_body interp1d d mi x y s = Inr s' \<and> P s'"
  shows "\<exists>s'. interpolate_missing_data_3d_spline interp1d d mi = Inr s' \<and> P s'"
proof -
  have "\<exists>s'. for_each [0..<X] (\<lambda>x. for_each [0..<Y] (loop_body interp1d d mi x)) (d, []) = Inr s'
             \<and> P s'"
  proof (rule for_each_total[where P = P, OF assms(2)])
    fix x s1 assume x: "x \<in> set [0..<X]" and p: "P s1"
    show "\<exists>s2. for_each [0..<Y] (loop_body interp1d d mi x) s1 = Inr s2 \<and> P s2"
    proof (rule for_each_total[where P = P, OF p])
      fix y t1 assume "y \<in> set [0..<Y]" "P t1"
      then show "\<exists>t2. loop_body interp1d d mi x y t1 = Inr t2 \<and> P t2"
        using step[of x y t1] x by simp
    qed
  qed
  then show ?thesis using assms(1) by (simp add: interpolate_missing_data_3d_spline_def)
qed

lemma interpolate_first_raises:
  assumes "shape d = (T, X, Y)" and "0 < X" and "0 < Y"
    and "loop_body interp1d d mi 0 0 (d, []) = Inl e"
  shows "interpolate_missing_data_3d_spline interp1d d mi = Inl e"
proof -
  have "for_each [0..<Y] (loop_body interp1d d mi 0) (d, []) = Inl e"
    using for_each_first_raises[OF assms(3), of "loop_body interp1d d mi 0"] assms(4) by simp
  then have "for_each [0..<X] (\<lambda>x. for_each [0..<Y] (loop_body interp1d d mi x)) (d, []) = Inl e"
    using for_each_first_raises[OF assms(2), of "\<lambda>x. for_each [0..<Y] (loop_body interp1d d mi x)"]
    by simp
  then show ?thesis using assms(1) by (simp add: interpolate_missing_data_3d_spline_def)
qed

section \<open>Facts about a whole run\<close>

lemma run_invariant:
  assumes "interpolate_missing_data_3d_spline interp1d d mi = Inr (out, pr)"
    and "shape d = (T, X, Y)"
  shows "shape out = shape d"
    and "well_shaped d \<Longrightarrow> well_shaped out"
    and "normalize_index T mi = Inr t \<Longrightarrow> t' \<noteq> t \<Longrightarrow> cells out ! t' = cells d ! t'"
proof -
  have sh: "shape (fst (out, pr)) = shape d"
  proof (rule interpolate_preserves[where P = "\<lambda>s. shape (fst s) = shape d", OF assms])
    show "shape (fst (d, [])) = shape d" by simp
  next
    fix x y s s'
    assume "shape (fst s) = shape d" "loop_body interp1d d mi x y s = Inr s'"
    then show "shape (fst s') = shape d"
      using loop_body_result[of interp1d d mi x y s s'] setitem_shape by fastforce
  qed
  then show "shape out = shape d" by simp
  show "well_shaped out" if "well_shaped d"
  proof -
    have "well_shaped (fst (out, pr))"
    proof (rule interpolate_preserves[where P = "\<lambda>s. well_shaped (fst s)", OF assms])
      show "well_shaped (fst (d, []))" using that by simp
    next
      fix x y s s'
      assume "well_shaped (fst s)" "loop_body interp1d d mi x y s = Inr s'"
      then show "well_shaped (fst s')"
        using loop_body_result[of interp1d d mi x y s s'] setitem_well_shaped by fastforce
    qed
    then show ?thesis by simp
  qed
  show "cells out ! t' = cells d ! t'" if n: "normalize_index T mi = Inr t" and ne: "t' \<noteq> t"
  proof -
    have "shape (fst (out, pr)) = shape d \<and> cells (fst (out, pr)) ! t' = cells d ! t'"
    proof (rule interpolate_preserves[where
          P = "\<lambda>s. shape (fst s) = shape d \<and> cells (fst s) ! t' = cells d ! t'", OF assms])
      show "shape (fst (d, [])) = shape d \<and> cells (fst (d, [])) ! t' = cells d ! t'" by simp
    next
      fix x y s s'
      assume p: "shape (fst s) = shape d \<and> cells (fst s) ! t' = cells d ! t'"
        and b: "loop_body interp1d d mi x y s = Inr s'"
      from loop_body_result[OF b]
      show "shape (fst s') = shape d \<and> cells (fst s') ! t' = cells d ! t'"
      proof
        assume "fst s' = fst s"
        then show ?thesis using p by simp
      next
        assume "\<exists>v. setitem (fst s) mi x y v = Inr (fst s')"
        then obtain v where w: "setitem (fst s) mi x y v = Inr (fst s')" by blast
        have "normalize_index (fst (shape (fst s))) mi = Inr t" using n p assms(2) by simp
        from setitem_other_slice[OF w this ne] setitem_shape[OF w] p
        show ?thesis by simp
      qed
    qed
    then show ?thesis by simp
  qed
qed

lemma skipped_unchanged:
  assumes "interpolate_missing_data_3d_spline interp1d d mi = Inr (out, pr)"
    and "shape d = (T, X, Y)" and "length (valid_indices T mi) < 2"
  shows "out = d"
proof -
  have "fst (out, pr) = d"
  proof (rule interpolate_preserves[where P = "\<lambda>s. fst s = d", OF assms(1,2)])
    show "fst (d, []) = d" by simp
  next
    fix x y s s'
    assume p: "fst s = d" and b: "loop_body interp1d d mi x y s = Inr s'"
    show "fst s' = d"
    proof (cases "valid_indices T mi = []")
      case True
      then show ?thesis using loop_body_empty[OF assms(2) True, of interp1d x y s] b by simp
    next
      case False
      then have "length (valid_indices T mi) = 1" using assms(3) by (cases "valid_indices T mi") auto
      from loop_body_skip[OF assms(2) this, of interp1d x y "fst s" "snd s"] b p
      show ?thesis by auto
    qed
  qed
  then show ?thesis by simp
qed

lemma fitted_cell:
  assumes run: "interpolate_missing_data_3d_spline interp1d d mi = Inr (out, pr)"
    and wf: "well_shaped d" and sh: "shape d = (T, X, Y)" and x: "x < X" and y: "y < Y"
    and fit: "2 \<le> length (valid_indices T mi)"
  shows "\<exists>f t. interp1d (valid_indices T mi) (valid_data_at d mi x y) = Inr f \<and>
               normalize_index T mi = Inr t \<and> getitem out t x y = f mi"
proof -
  let ?J = "\<lambda>s. shape (fst s) = shape d \<and> well_shaped (fst s)"
  let ?Q = "\<lambda>s. \<exists>f t. interp1d (valid_indices T mi) (valid_data_at d mi x y) = Inr f \<and>
               normalize_index T mi = Inr t \<and> getitem (fst s) t x y = f mi"
  have step: "\<exists>f t. interp1d (valid_indices T mi) (valid_data_at d mi x' y') = Inr f \<and>
                normalize_index T mi = Inr t \<and> setitem (fst s) mi x' y' (f mi) = Inr (fst s')"
    if "?J s" "loop_body interp1d d mi x' y' s = Inr s'" for x' y' s s'
  proof -
    from that(2) loop_body_fit[OF sh fit, of interp1d x' y' "fst s" "snd s"]
    obtain f where f: "interp1d (valid_indices T mi) (valid_data_at d mi x' y') = Inr f"
      and w: "setitem (fst s) mi x' y' (f mi) = Inr (fst s')"
      by (auto split: sum.splits)
    from setitem_cells[OF w] that(1) sh obtain t where "normalize_index T mi = Inr t" by auto
    then show ?thesis using f w by blast
  qed
  have keep: "?J s'" if "?J s" "loop_body interp1d d mi x' y' s = Inr s'" for x' y' s s'
    using step[OF that] that(1) setitem_shape setitem_well_shaped by metis
  have "?Q (out, pr)"
  proof (rule interpolate_establishes[where J = ?J and Q = ?Q, OF run sh x y])
    show "?J (d, [])" using wf by simp
  next
    fix x' y' s s'
    assume "x' < X" "y' < Y" "?J s" "loop_body interp1d d mi x' y' s = Inr s'"
    then show "?J s'" using keep by blast
  next
    fix s s'
    assume j: "?J s" and b: "loop_body interp1d d mi x y s = Inr s'"
    from step[OF j b] obtain f t where
      f: "interp1d (valid_indices T mi) (valid_data_at d mi x y) = Inr f"
      and t: "normalize_index T mi = Inr t"
      and w: "setitem (fst s) mi x y (f mi) = Inr (fst s')" by blast
    have "shape (fst s) = (T, X, Y)" "well_shaped (fst s)" using j sh by simp_all
    from getitem_setitem[OF this(2) this(1) w t x y, of t x y]
    have "getitem (fst s') t x y = f mi" by simp
    then show "?Q s'" using f t by blast
  next
    fix x' y' s s'
    assume x': "x' < X" and y': "y' < Y" and j: "?J s" and q: "?Q s"
      and b: "loop_body interp1d d mi x' y' s = Inr s'"
    from q obtain f t where
      f: "interp1d (valid_indices T mi) (valid_data_at d mi x y) = Inr f"
      and t: "normalize_index T mi = Inr t"
      and g: "getitem (fst s) t x y = f mi" by blast
    from step[OF j b] t obtain f' where
      f': "interp1d (valid_indices T mi) (valid_data_at d mi x' y') = Inr f'"
      and w: "setitem (fst s) mi x' y' (f' mi) = Inr (fst s')" by auto
    have "shape (fst s) = (T, X, Y)" "well_shaped (fst s)" using j sh by simp_all
    from getitem_setitem[OF this(2) this(1) w t x' y', of t x y]
    have "getitem (fst s') t x y = (if x = x' \<and> y = y' then f' mi else getitem (fst s) t x y)"
      by simp
    moreover have "x = x' \<and> y = y' \<Longrightarrow> f' = f" using f f' by simp
    ultimately have "getitem (fst s') t x y = f mi" using g by auto
    then show "?Q s'" using f t by blast
  qed
  then show ?thesis by simp
qed

lemma for_each_print:
  "for_each js (\<lambda>j s. Inr (fst s, snd s @ g j)) (A, pr) = Inr (A, pr @ concat (map g js))"
  by (induction js arbitrary: pr) auto

lemma skip_run:
  assumes "shape d = (T, X, Y)" and "length (valid_indices T mi) = 1"
  shows "interpolate_missing_data_3d_spline interp1d d mi =
           Inr (d, concat (map (\<lambda>x. map (NotEnoughData x) [0..<Y]) [0..<X]))"
proof -
  have body: "loop_body interp1d d mi x = (\<lambda>y s. Inr (fst s, snd s @ [NotEnoughData x y]))" for x
    using loop_body_skip[OF assms, of interp1d x] by (intro ext) (simp add: split_paired_all)
  have inner: "for_each [0..<Y] (loop_body interp1d d mi x)
                 = (\<lambda>s. Inr (fst s, snd s @ map (NotEnoughData x) [0..<Y]))" for x
  proof
    fix s :: "'a ndarray \<times> diag list"
    have "concat (map (\<lambda>y. [NotEnoughData x y]) [0..<Y]) = map (NotEnoughData x) [0..<Y]"
      by (induction Y) auto
    then show "for_each [0..<Y] (loop_body interp1d d mi x) s
                 = Inr (fst s, snd s @ map (NotEnoughData x) [0..<Y])"
      using for_each_print[of "[0..<Y]" "\<lambda>y. [NotEnoughData x y]" "fst s" "snd s"]
      by (simp add: body)
  qed
  show ?thesis
    using for_each_print[of "[0..<X]" "\<lambda>x. map (NotEnoughData x) [0..<Y]" d "[]"] assms(1)
    by (simp add: interpolate_missing_data_3d_spline_def inner)
qed

lemma fit_run:
  assumes wf: "well_shaped d" and sh: "shape d = (T, X, Y)"
    and four: "4 \<le> length (valid_indices T mi)" and t: "normalize_index T mi = Inr t"
  shows "\<exists>out. interpolate_missing_data_3d_spline (interp1d_cubic spline) d mi = Inr (out, []) \<and>
           (\<forall>x<X. \<forall>y<Y. getitem out t x y = spline (valid_indices T mi) (valid_data_at d mi x y) mi)"
proof -
  let ?P = "\<lambda>s::'a ndarray \<times> diag list. shape (fst s) = shape d \<and> snd s = []"
  have "\<exists>s'. interpolate_missing_data_3d_spline (interp1d_cubic spline) d mi = Inr s' \<and> ?P s'"
  proof (rule interpolate_total[where P = ?P, OF sh])
    show "?P (d, [])" by simp
  next
    fix x y s
    assume "x < X" "y < Y" and p: "?P s"
    have ok: "interp1d_cubic spline (valid_indices T mi) (valid_data_at d mi x y)
                = Inr (spline (valid_indices T mi) (valid_data_at d mi x y))"
      using four length_valid_data_at[OF sh, of mi x y] by (simp add: interp1d_cubic_def)
    obtain A' where w: "setitem (fst s) mi x y
        (spline (valid_indices T mi) (valid_data_at d mi x y) mi) = Inr A'"
      using t p sh by (auto simp: setitem_def)
    have two: "2 \<le> length (valid_indices T mi)" using four by simp
    have "loop_body (interp1d_cubic spline) d mi x y (fst s, snd s) = Inr (A', snd s)"
      unfolding loop_body_fit[OF sh two] by (simp add: ok w)
    then have "loop_body (interp1d_cubic spline) d mi x y s = Inr (A', [])"
      using p by (cases s) simp
    then show "\<exists>s'. loop_body (interp1d_cubic spline) d mi x y s = Inr s' \<and> ?P s'"
      using p setitem_shape[OF w] by simp
  qed
  then obtain out where run:
    "interpolate_missing_data_3d_spline (interp1d_cubic spline) d mi = Inr (out, [])"
    by (metis prod.collapse)
  have "getitem out t x y = spline (valid_indices T mi) (valid_data_at d mi x y) mi"
    if "x < X" "y < Y" for x y
  proof -
    from fitted_cell[OF run wf sh that] four t obtain f where
      "interp1d_cubic spline (valid_indices T mi) (valid_data_at d mi x y) = Inr f"
      "getitem out t x y = f mi" by auto
    moreover have "interp1d_cubic spline (valid_indices T mi) (valid_data_at d mi x y)
                = Inr (spline (valid_indices T mi) (valid_data_at d mi x y))"
      using four length_valid_data_at[OF sh, of mi x y] by (simp add: interp1d_cubic_def)
    ultimately show ?thesis by simp
  qed
  then show ?thesis using run by blast
qed

lemma cubic_rejects:
  assumes sh: "shape d = (T, X, Y)" and "0 < X" and "0 < Y"
    and "2 \<le> length (valid_indices T mi)" and "length (valid_indices T mi) < 4"
  shows "interpolate_missing_data_3d_spline (interp1d_cubic spline) d mi = Inl ValueError"
proof (rule interpolate_first_raises[OF sh assms(2,3)])
  show "loop_body (interp1d_cubic spline) d mi 0 0 (d, []) = Inl ValueError"
    unfolding loop_body_fit[OF sh assms(4)] using assms(5) by (simp add: interp1d_cubic_def)
qed

section \<open>Worked examples\<close>

lemmas run_defs =
  interpolate_missing_data_3d_spline_def vol_def loop_body_def fancy_index_def
  interp1d_cubic_def polynomial_spline_def lagrange_def setitem_def normalize_index_def
  getitem_def upt_conv_Cons

lemma cube_volume_run:
  "interpolate_missing_data_3d_spline (interp1d_cubic polynomial_spline) cube_volume 2
     = Inr (cube_volume_filled, [])"
  by (simp add: cube_volume_def cube_volume_filled_def run_defs)

lemma other_volume_run:
  "interpolate_missing_data_3d_spline (interp1d_cubic polynomial_spline) other_volume 2
     = Inr (other_volume_filled, [])"
  by (simp add: other_volume_def other_volume_filled_def run_defs)

lemma cube_volume_well_shaped: "well_shaped cube_volume"
  by (simp add: cube_volume_def vol_def well_shaped_def)

lemma other_volume_well_shaped: "well_shaped other_volume"
  by (simp add: other_volume_def vol_def well_shaped_def)

lemma four_steps_run:
  "interpolate_missing_data_3d_spline (interp1d_cubic polynomial_spline) four_steps (- 1)
     = Inr (four_steps_wrapped, [])"
  by (simp add: four_steps_def four_steps_wrapped_def run_defs)

section \<open>The claims\<close>

text \<open>
  C1: a volume with \<open>T = 3\<close> and \<open>missing_index = 1\<close> leaves two samples at each
  location. The guard of line 32 lets them through, and the cubic \<open>interp1d\<close> refuses
  fewer than four points: the call raises \<open>ValueError\<close> where the claim expects the value
  on the line through the two samples (here \<open>2\<close>, between \<open>1\<close> at time 0 and \<open>3\<close> at
  time 2).
\<close>

theorem two_samples_raise:
  "interpolate_missing_data_3d_spline (interp1d_cubic polynomial_spline) three_steps 1
     = Inl ValueError"
  by (simp add: three_steps_def run_defs)

text \<open>
  C2, as stated, fails: the function has no check of \<open>missing_index\<close>. With one time
  step and \<open>missing_index = 5\<close> the only time index is a sample, one sample is below
  the threshold of line 32, the location is skipped and a copy of the input is returned;
  nothing is raised.
\<close>

theorem index_not_validated_counterexample:
  "interpolate_missing_data_3d_spline (interp1d_cubic polynomial_spline) one_step 5
     = Inr (one_step, [NotEnoughData 0 0])"
  by (simp add: one_step_def run_defs)

text \<open>
  C2, amended: the function does not check \<open>missing_index\<close>. With at least four time
  steps and at least one location, an index \<open>idx \<ge> T\<close> or \<open>idx < -T\<close> that fits the signed
  64-bit index type (\<open>-2^63 \<le> idx < 2^63\<close>) makes the call raise NumPy's \<open>IndexError\<close>,
  from the write of line 37 at the first location, after that location's fit; the
  index is not clamped, and nothing is returned. With one time step, every index other
  than 0, in range or not, raises nothing: each location has one sample and is
  skipped, the output equals the input and one line is printed per location.
\<close>

theorem out_of_range_index_raises:
  assumes "shape data_3d = (T, X, Y)"
  shows "(4 \<le> T \<and> 0 < X \<and> 0 < Y
            \<and> (missing_index < - int T \<or> int T \<le> missing_index)
            \<and> - (2 ^ 63) \<le> missing_index \<and> missing_index < 2 ^ 63 \<longrightarrow>
            interpolate_missing_data_3d_spline (interp1d_cubic spline) data_3d missing_index
              = Inl IndexError)
       \<and> (T = 1 \<and> missing_index \<noteq> 0 \<longrightarrow>
            interpolate_missing_data_3d_spline interp1d data_3d missing_index
              = Inr (data_3d, concat (map (\<lambda>x. map (NotEnoughData x) [0..<Y]) [0..<X])))"
proof (intro conjI impI)
  assume h: "4 \<le> T \<and> 0 < X \<and> 0 < Y
            \<and> (missing_index < - int T \<or> int T \<le> missing_index)
            \<and> - (2 ^ 63) \<le> missing_index \<and> missing_index < 2 ^ 63"
  then have out: "missing_index < - int T \<or> int T \<le> missing_index" by blast
  have all: "valid_indices T missing_index = [0..<T]"
    using out by (auto simp: valid_indices_all)
  then have two: "2 \<le> length (valid_indices T missing_index)" using h by simp
  have ok: "interp1d_cubic spline (valid_indices T missing_index)
              (valid_data_at data_3d missing_index 0 0)
            = Inr (spline (valid_indices T missing_index) (valid_data_at data_3d missing_index 0 0))"
    using all h length_valid_data_at[OF assms, of missing_index 0 0]
    by (simp add: interp1d_cubic_def)
  have "normalize_index T missing_index = Inl IndexError"
    using h by (auto simp: normalize_index_def)
  then have "setitem data_3d missing_index 0 0 v = Inl IndexError" for v
    using assms by (simp add: setitem_def)
  then have "loop_body (interp1d_cubic spline) data_3d missing_index 0 0 (data_3d, [])
               = Inl IndexError"
    unfolding loop_body_fit[OF assms two] by (simp add: ok)
  then show "interpolate_missing_data_3d_spline (interp1d_cubic spline) data_3d missing_index
               = Inl IndexError"
    using h by (simp add: interpolate_first_raises[OF assms])
next
  assume "T = 1 \<and> missing_index \<noteq> 0"
  then have "length (valid_indices T missing_index) = 1"
    by (auto simp: length_valid_indices)
  then show "interpolate_missing_data_3d_spline interp1d data_3d missing_index
              = Inr (data_3d, concat (map (\<lambda>x. map (NotEnoughData x) [0..<Y]) [0..<X]))"
    by (rule skip_run[OF assms])
qed

theorem out_of_range_index_raises_witness:
  "shape four_steps = (4, 1, 1) \<and> (4::nat) \<le> 4 \<and> (0::nat) < 1
   \<and> ((4::int) < - int 4 \<or> int 4 \<le> (4::int)) \<and> - (2 ^ 63) \<le> (4::int) \<and> (4::int) < 2 ^ 63
   \<and> interpolate_missing_data_3d_spline (interp1d_cubic polynomial_spline) four_steps 4
        = Inl IndexError
   \<and> interpolate_missing_data_3d_spline (interp1d_cubic polynomial_spline) four_steps (- 5)
        = Inl IndexError
   \<and> shape one_step = (1, 1, 1) \<and> (7::int) \<noteq> 0
   \<and> interpolate_missing_data_3d_spline (interp1d_cubic polynomial_spline) one_step 7
        = Inr (one_step, [NotEnoughData 0 0])"
proof -
  have sh: "shape four_steps = (4, 1, 1)" by (simp add: four_steps_def vol_def)
  have sh1: "shape one_step = (1, 1, 1)" by (simp add: one_step_def vol_def)
  have "interpolate_missing_data_3d_spline (interp1d_cubic polynomial_spline) four_steps 4
          = Inl IndexError"
    using out_of_range_index_raises[OF sh, of 4 polynomial_spline] by simp
  moreover have
    "interpolate_missing_data_3d_spline (interp1d_cubic polynomial_spline) four_steps (- 5)
          = Inl IndexError"
    using out_of_range_index_raises[OF sh, of "- 5" polynomial_spline] by simp
  moreover have
    "interpolate_missing_data_3d_spline (interp1d_cubic polynomial_spline) one_step 7
          = Inr (one_step, [NotEnoughData 0 0])"
    using out_of_range_index_raises[OF sh1,
        where missing_index = 7 and interp1d = "interp1d_cubic polynomial_spline"]
    by simp
  ultimately show ?thesis using sh sh1 by simp
qed

text \<open>
  C3: for a missing index in \<open>[0, T)\<close> and every time index \<open>t\<close> other than it, slice
  \<open>t\<close> of the returned array equals slice \<open>t\<close> of the input. This holds whatever the
  library call does.
\<close>

theorem other_slices_unchanged:
  assumes "interpolate_missing_data_3d_spline interp1d data_3d missing_index = Inr (out, printed)"
    and "shape data_3d = (T, X, Y)"
    and "0 \<le> missing_index" and "missing_index < int T"
    and "int t \<noteq> missing_index"
  shows "cells out ! t = cells data_3d ! t"
proof -
  have "normalize_index T missing_index = Inr (nat missing_index)"
    using assms(3,4) by (simp add: normalize_index_def)
  moreover have "t \<noteq> nat missing_index" using assms(3,5) by auto
  ultimately show ?thesis using run_invariant(3)[OF assms(1,2)] by blast
qed

theorem other_slices_unchanged_witness:
  "interpolate_missing_data_3d_spline (interp1d_cubic polynomial_spline) cube_volume 2
     = Inr (cube_volume_filled, [])
   \<and> shape cube_volume = (5, 1, 2) \<and> (0::int) \<le> 2 \<and> (2::int) < int 5 \<and> int 3 \<noteq> 2
   \<and> cells cube_volume_filled ! 3 = cells cube_volume ! 3"
proof -
  have sh: "shape cube_volume = (5, 1, 2)" by (simp add: cube_volume_def vol_def)
  have "cells cube_volume_filled ! 3 = cells cube_volume ! 3"
    by (rule other_slices_unchanged[OF cube_volume_run sh]) simp_all
  then show ?thesis using cube_volume_run sh by simp
qed

text \<open>
  C4: with \<open>T = 1\<close> and \<open>missing_index = 0\<close> a location has no sample at all, which is
  fewer than two. The \<open>else\<close> branch of line 38 is never reached: the index array built
  from the empty list is a float array, and line 29 raises \<open>IndexError\<close>. The claim
  expects the location to be skipped and the call to return.
\<close>

theorem no_samples_raises:
  "interpolate_missing_data_3d_spline (interp1d_cubic polynomial_spline) one_step 0
     = Inl IndexError"
  by (simp add: one_step_def run_defs)

text \<open>
  C5: for a well-shaped input and a missing index in \<open>[0, T)\<close>, the returned array has
  the shape \<open>(T, X, Y)\<close> of the input, and its cells fill exactly that shape.
\<close>

theorem shape_preserved:
  assumes "interpolate_missing_data_3d_spline interp1d data_3d missing_index = Inr (out, printed)"
    and "well_shaped data_3d" and "shape data_3d = (T, X, Y)"
    and "0 \<le> missing_index" and "missing_index < int T"
  shows "shape out = (T, X, Y) \<and> well_shaped out"
  using run_invariant(1,2)[OF assms(1,3)] assms(2,3) by simp

theorem shape_preserved_witness:
  "interpolate_missing_data_3d_spline (interp1d_cubic polynomial_spline) cube_volume 2
     = Inr (cube_volume_filled, [])
   \<and> well_shaped cube_volume \<and> shape cube_volume = (5, 1, 2) \<and> (0::int) \<le> 2 \<and> (2::int) < int 5
   \<and> shape cube_volume_filled = (5, 1, 2) \<and> well_shaped cube_volume_filled"
proof -
  have sh: "shape cube_volume = (5, 1, 2)" by (simp add: cube_volume_def vol_def)
  have "shape cube_volume_filled = (5, 1, 2) \<and> well_shaped cube_volume_filled"
    by (rule shape_preserved[OF cube_volume_run cube_volume_well_shaped sh]) simp_all
  then show ?thesis using cube_volume_run cube_volume_well_shaped sh by simp
qed

text \<open>
  C6: with \<open>T = 3\<close> and \<open>missing_index = 0\<close> the samples sit at times 1 and 2, so the
  missing index lies outside their range. The call raises \<open>ValueError\<close> for the same
  reason as in C1, where the claim expects an extrapolated value.
\<close>

theorem boundary_with_two_samples_raises:
  "interpolate_missing_data_3d_spline (interp1d_cubic polynomial_spline) three_steps 0
     = Inl ValueError"
  by (simp add: three_steps_def run_defs)

text \<open>
  C7, as stated, fails: the function filters nothing by value. Here the four
  non-missing time steps are NaN and the input holds \<open>7\<close> at the missing index. Four
  samples pass the guard of line 32, the fit is attempted, and its result, NaN,
  replaces the \<open>7\<close>.
\<close>

theorem nan_samples_counterexample:
  "interpolate_missing_data_3d_spline (interp1d_cubic polynomial_spline) nan_volume 2
     = Inr (nan_volume_filled, [])
   \<and> getitem nan_volume 2 0 0 = Num 7 \<and> getitem nan_volume_filled 2 0 0 = NaN"
  by (simp add: nan_volume_def nan_volume_filled_def run_defs)

text \<open>
  C7, amended: whether a location is skipped depends only on how many time indices
  differ from \<open>missing_index\<close>, never on the values there, NaN or not. With \<open>T = 2\<close>
  every location has one sample and is skipped: the output equals the input, one line
  is printed per location in loop order, and nothing is raised. With \<open>T \<ge> 5\<close> every
  location is fitted and the value of the fit is stored at the missing index.
\<close>

theorem skip_depends_on_count_only:
  assumes "well_shaped data_3d" and "shape data_3d = (T, X, Y)"
    and "0 \<le> missing_index" and "missing_index < int T"
  shows "(T = 2 \<longrightarrow>
            interpolate_missing_data_3d_spline interp1d data_3d missing_index
              = Inr (data_3d, concat (map (\<lambda>x. map (NotEnoughData x) [0..<Y]) [0..<X])))
       \<and> (5 \<le> T \<longrightarrow>
            (\<exists>out. interpolate_missing_data_3d_spline (interp1d_cubic spline) data_3d missing_index
                     = Inr (out, [])
                \<and> (\<forall>x<X. \<forall>y<Y. getitem out (nat missing_index) x y
                      = spline (valid_indices T missing_index)
                          (valid_data_at data_3d missing_index x y) missing_index)))"
proof (intro conjI impI)
  assume "T = 2"
  then have "length (valid_indices T missing_index) = 1"
    using assms(3,4) by (simp add: length_valid_indices)
  then show "interpolate_missing_data_3d_spline interp1d data_3d missing_index
              = Inr (data_3d, concat (map (\<lambda>x. map (NotEnoughData x) [0..<Y]) [0..<X]))"
    by (rule skip_run[OF assms(2)])
next
  assume "5 \<le> T"
  then have four: "4 \<le> length (valid_indices T missing_index)"
    using assms(3,4) by (simp add: length_valid_indices)
  have n: "normalize_index T missing_index = Inr (nat missing_index)"
    using assms(3,4) by (simp add: normalize_index_def)
  show "\<exists>out. interpolate_missing_data_3d_spline (interp1d_cubic spline) data_3d missing_index
                 = Inr (out, [])
            \<and> (\<forall>x<X. \<forall>y<Y. getitem out (nat missing_index) x y
                  = spline (valid_indices T missing_index)
                      (valid_data_at data_3d missing_index x y) missing_index)"
    by (rule fit_run[OF assms(1,2) four n])
qed

theorem skip_depends_on_count_only_witness:
  "well_shaped two_steps \<and> shape two_steps = (2, 1, 2) \<and> (0::int) \<le> 1 \<and> (1::int) < int 2
   \<and> interpolate_missing_data_3d_spline (interp1d_cubic polynomial_spline) two_steps 1
        = Inr (two_steps, [NotEnoughData 0 0, NotEnoughData 0 1])
   \<and> well_shaped nan_volume \<and> shape nan_volume = (5, 1, 1) \<and> (0::int) \<le> 2 \<and> (2::int) < int 5
   \<and> interpolate_missing_data_3d_spline (interp1d_cubic polynomial_spline) nan_volume 2
        = Inr (nan_volume_filled, [])
   \<and> getitem nan_volume_filled (nat 2) 0 0
        = polynomial_spline (valid_indices 5 2) (valid_data_at nan_volume 2 0 0) 2"
proof -
  have wf2: "well_shaped two_steps" by (simp add: two_steps_def vol_def well_shaped_def)
  have sh2: "shape two_steps = (2, 1, 2)" by (simp add: two_steps_def vol_def)
  have wf5: "well_shaped nan_volume" by (simp add: nan_volume_def vol_def well_shaped_def)
  have sh5: "shape nan_volume = (5, 1, 1)" by (simp add: nan_volume_def vol_def)
  have run5: "interpolate_missing_data_3d_spline (interp1d_cubic polynomial_spline) nan_volume 2
        = Inr (nan_volume_filled, [])"
    by (simp add: nan_volume_def nan_volume_filled_def run_defs)
  have "interpolate_missing_data_3d_spline (interp1d_cubic polynomial_spline) two_steps 1
        = Inr (two_steps, [NotEnoughData 0 0, NotEnoughData 0 1])"
    using skip_depends_on_count_only[OF wf2 sh2, of 1 "interp1d_cubic polynomial_spline"]
    by (simp add: upt_conv_Cons)
  moreover have "getitem nan_volume_filled (nat 2) 0 0
        = polynomial_spline (valid_indices 5 2) (valid_data_at nan_volume 2 0 0) 2"
    using skip_depends_on_count_only[OF wf5 sh5, of 2 interp1d polynomial_spline] run5
    by simp
  ultimately show ?thesis using wf2 sh2 wf5 sh5 run5 by simp
qed

text \<open>
  C8: the value returned at \<open>(missing_index, x, y)\<close> depends on the input only through
  the time series at \<open>(x, y)\<close>: two inputs that agree on that time series, whatever
  their other locations hold and whatever the sizes of their grids, give the same value
  there.
\<close>

theorem location_independent:
  assumes r1: "interpolate_missing_data_3d_spline interp1d d1 missing_index = Inr (out1, printed1)"
    and r2: "interpolate_missing_data_3d_spline interp1d d2 missing_index = Inr (out2, printed2)"
    and wf1: "well_shaped d1" and wf2: "well_shaped d2"
    and sh1: "shape d1 = (T1, X1, Y1)" and sh2: "shape d2 = (T2, X2, Y2)"
    and x: "x < X1" "x < X2" and y: "y < Y1" "y < Y2"
    and mi: "0 \<le> missing_index" "missing_index < int T1"
    and same: "time_series_at d1 x y = time_series_at d2 x y"
  shows "getitem out1 (nat missing_index) x y = getitem out2 (nat missing_index) x y"
proof -
  have "length (time_series_at d1 x y) = T1" "length (time_series_at d2 x y) = T2"
    using sh1 sh2 by (simp_all add: time_series_at_def)
  then have T: "T2 = T1" using same by simp
  have n: "normalize_index T1 missing_index = Inr (nat missing_index)"
    using mi by (simp add: normalize_index_def)
  have vd: "valid_data_at d1 missing_index x y = valid_data_at d2 missing_index x y"
    using same sh1 sh2 T by (simp add: valid_data_at_def)
  show ?thesis
  proof (cases "2 \<le> length (valid_indices T1 missing_index)")
    case True
    from fitted_cell[OF r1 wf1 sh1 x(1) y(1) True] n obtain f1 where
      f1: "interp1d (valid_indices T1 missing_index) (valid_data_at d1 missing_index x y) = Inr f1"
      and g1: "getitem out1 (nat missing_index) x y = f1 missing_index" by auto
    from fitted_cell[OF r2 wf2 sh2[unfolded T] x(2) y(2) True] n obtain f2 where
      f2: "interp1d (valid_indices T1 missing_index) (valid_data_at d2 missing_index x y) = Inr f2"
      and g2: "getitem out2 (nat missing_index) x y = f2 missing_index" by auto
    from f1 f2 vd have "f1 = f2" by simp
    then show ?thesis using g1 g2 by simp
  next
    case False
    then have lt: "length (valid_indices T1 missing_index) < 2" by simp
    have o1: "out1 = d1" by (rule skipped_unchanged[OF r1 sh1 lt])
    have o2: "out2 = d2" by (rule skipped_unchanged[OF r2 sh2[unfolded T] lt])
    have lt1: "nat missing_index < T1" using mi by auto
    have "getitem d1 (nat missing_index) x y = time_series_at d1 x y ! nat missing_index"
      using lt1 sh1 by (simp add: time_series_at_def)
    moreover have "getitem d2 (nat missing_index) x y = time_series_at d2 x y ! nat missing_index"
      using lt1 sh2 T by (simp add: time_series_at_def)
    ultimately show ?thesis using same o1 o2 by simp
  qed
qed

theorem location_independent_witness:
  "interpolate_missing_data_3d_spline (interp1d_cubic polynomial_spline) cube_volume 2
     = Inr (cube_volume_filled, [])
   \<and> interpolate_missing_data_3d_spline (interp1d_cubic polynomial_spline) other_volume 2
     = Inr (other_volume_filled, [])
   \<and> well_shaped cube_volume \<and> well_shaped other_volume
   \<and> shape cube_volume = (5, 1, 2) \<and> shape other_volume = (5, 1, 2)
   \<and> time_series_at cube_volume 0 0 = time_series_at other_volume 0 0
   \<and> time_series_at cube_volume 0 1 \<noteq> time_series_at other_volume 0 1
   \<and> getitem cube_volume_filled (nat 2) 0 0 = getitem other_volume_filled (nat 2) 0 0"
proof -
  have sh1: "shape cube_volume = (5, 1, 2)" by (simp add: cube_volume_def vol_def)
  have sh2: "shape other_volume = (5, 1, 2)" by (simp add: other_volume_def vol_def)
  have same: "time_series_at cube_volume 0 0 = time_series_at other_volume 0 0"
    by (simp add: time_series_at_def cube_volume_def other_volume_def vol_def getitem_def
        upt_conv_Cons)
  have diff: "time_series_at cube_volume 0 1 \<noteq> time_series_at other_volume 0 1"
    by (simp add: time_series_at_def cube_volume_def other_volume_def vol_def getitem_def
        upt_conv_Cons)
  have "getitem cube_volume_filled (nat 2) 0 0 = getitem other_volume_filled (nat 2) 0 0"
    by (rule location_independent[OF cube_volume_run other_volume_run cube_volume_well_shaped
          other_volume_well_shaped sh1 sh2 _ _ _ _ _ _ same]) simp_all
  then show ?thesis
    using cube_volume_run other_volume_run cube_volume_well_shaped other_volume_well_shaped
      sh1 sh2 same diff by simp
qed

text \<open>
  C9: for a volume with at least one location and a missing index in \<open>[0, T)\<close>, each
  location has \<open>T - 1\<close> samples. When \<open>T\<close> is 3 or 4 these two or three samples pass the
  guard of line 32 and the cubic \<open>interp1d\<close> refuses them: the whole call raises
  \<open>ValueError\<close>. So a call that returns has \<open>T \<le> 2\<close> or \<open>T \<ge> 5\<close>.
\<close>

theorem cubic_fit_needs_five_time_steps:
  assumes "shape data_3d = (T, X, Y)" and "0 < X" and "0 < Y"
    and "0 \<le> missing_index" and "missing_index < int T"
  shows "length (filter (\<lambda>i. int i \<noteq> missing_index) [0..<T]) = T - 1
       \<and> (T = 3 \<or> T = 4 \<longrightarrow>
           interpolate_missing_data_3d_spline (interp1d_cubic spline) data_3d missing_index
             = Inl ValueError)
       \<and> (\<forall>r. interpolate_missing_data_3d_spline (interp1d_cubic spline) data_3d missing_index
               = Inr r \<longrightarrow> T \<le> 2 \<or> 5 \<le> T)"
proof -
  have count: "length (filter (\<lambda>i. int i \<noteq> missing_index) [0..<T]) = T - 1"
    using length_valid_indices[of T missing_index] assms(4,5) by (simp add: valid_indices_def)
  have raises: "interpolate_missing_data_3d_spline (interp1d_cubic spline) data_3d missing_index
                  = Inl ValueError" if "T = 3 \<or> T = 4"
  proof (rule cubic_rejects[OF assms(1,2,3)])
    show "2 \<le> length (valid_indices T missing_index)"
      using that assms(4,5) by (auto simp: length_valid_indices)
    show "length (valid_indices T missing_index) < 4"
      using that assms(4,5) by (auto simp: length_valid_indices)
  qed
  then have "T \<le> 2 \<or> 5 \<le> T"
    if "interpolate_missing_data_3d_spline (interp1d_cubic spline) data_3d missing_index = Inr r"
    for r
    using that by (cases "T = 3 \<or> T = 4") auto
  then show ?thesis using raises count by blast
qed

theorem cubic_fit_needs_five_time_steps_witness:
  "shape three_steps = (3, 1, 1) \<and> (0::nat) < 1 \<and> (0::int) \<le> 1 \<and> (1::int) < int 3
   \<and> interpolate_missing_data_3d_spline (interp1d_cubic polynomial_spline) three_steps 1
        = Inl ValueError
   \<and> shape cube_volume = (5, 1, 2) \<and> (0::nat) < 2 \<and> (0::int) \<le> 2 \<and> (2::int) < int 5
   \<and> interpolate_missing_data_3d_spline (interp1d_cubic polynomial_spline) cube_volume 2
        = Inr (cube_volume_filled, [])
   \<and> ((5::nat) \<le> 2 \<or> (5::nat) \<le> 5)"
proof -
  have sh3: "shape three_steps = (3, 1, 1)" by (simp add: three_steps_def vol_def)
  have sh5: "shape cube_volume = (5, 1, 2)" by (simp add: cube_volume_def vol_def)
  have "interpolate_missing_data_3d_spline (interp1d_cubic polynomial_spline) three_steps 1
          = Inl ValueError"
    using cubic_fit_needs_five_time_steps[OF sh3, of 1 polynomial_spline] by simp
  moreover have "(5::nat) \<le> 2 \<or> (5::nat) \<le> 5"
    using cubic_fit_needs_five_time_steps[OF sh5, of 2 polynomial_spline] cube_volume_run by simp
  ultimately show ?thesis using sh3 sh5 cube_volume_run by simp
qed

text \<open>
  C10, as stated, fails: with one time step and \<open>missing_index = -1\<close> nothing is raised
  and the only time index is a sample, but one sample is below the threshold of line
  32, so nothing is written and slice \<open>T + missing_index = 0\<close> of the output equals the
  input.
\<close>

theorem negative_index_counterexample:
  "interpolate_missing_data_3d_spline (interp1d_cubic polynomial_spline) one_step (- 1)
     = Inr (one_step, [NotEnoughData 0 0])"
  by (simp add: one_step_def run_defs)

text \<open>
  C10, amended: for \<open>-T \<le> missing_index < 0\<close> no time index is excluded. With
  \<open>T \<ge> 4\<close> the call does not raise and prints nothing; at every location the cell of
  slice \<open>T + missing_index\<close> is overwritten with the fitted curve evaluated at the
  negative coordinate \<open>missing_index\<close>, and every other slice is left as it was.
\<close>

theorem negative_index_wraps:
  assumes "well_shaped data_3d" and "shape data_3d = (T, X, Y)"
    and "4 \<le> T" and "- int T \<le> missing_index" and "missing_index < 0"
  shows "filter (\<lambda>i. int i \<noteq> missing_index) [0..<T] = [0..<T]
       \<and> (\<exists>out. interpolate_missing_data_3d_spline (interp1d_cubic spline) data_3d missing_index
                   = Inr (out, [])
              \<and> (\<forall>x<X. \<forall>y<Y. getitem out (nat (int T + missing_index)) x y
                          = spline [0..<T] (time_series_at data_3d x y) missing_index)
              \<and> (\<forall>t. t \<noteq> nat (int T + missing_index) \<longrightarrow> cells out ! t = cells data_3d ! t))"
proof -
  have all: "valid_indices T missing_index = [0..<T]"
    using assms(5) by (simp add: valid_indices_all)
  have n: "normalize_index T missing_index = Inr (nat (int T + missing_index))"
    using assms(4,5) by (simp add: normalize_index_def add.commute)
  have four: "4 \<le> length (valid_indices T missing_index)" using assms(3) all by simp
  from fit_run[OF assms(1,2) four n, of spline] obtain out where
    run: "interpolate_missing_data_3d_spline (interp1d_cubic spline) data_3d missing_index
            = Inr (out, [])"
    and c: "\<forall>x<X. \<forall>y<Y. getitem out (nat (int T + missing_index)) x y
              = spline (valid_indices T missing_index) (valid_data_at data_3d missing_index x y)
                  missing_index"
    by blast
  have "valid_data_at data_3d missing_index x y = time_series_at data_3d x y" for x y
    using valid_data_at_all[OF assms(2), of missing_index x y] assms(5) by simp
  then have c': "\<forall>x<X. \<forall>y<Y. getitem out (nat (int T + missing_index)) x y
              = spline [0..<T] (time_series_at data_3d x y) missing_index"
    using c all by simp
  have "\<forall>t. t \<noteq> nat (int T + missing_index) \<longrightarrow> cells out ! t = cells data_3d ! t"
    using run_invariant(3)[OF run assms(2) n] by blast
  then show ?thesis using all run c' by (auto simp: valid_indices_def)
qed

theorem negative_index_wraps_witness:
  "well_shaped four_steps \<and> shape four_steps = (4, 1, 1) \<and> (4::nat) \<le> 4
   \<and> - int 4 \<le> (- 1 :: int) \<and> (- 1 :: int) < 0
   \<and> interpolate_missing_data_3d_spline (interp1d_cubic polynomial_spline) four_steps (- 1)
        = Inr (four_steps_wrapped, [])
   \<and> getitem four_steps_wrapped (nat (int 4 + - 1)) 0 0
        = polynomial_spline [0..<4] (time_series_at four_steps 0 0) (- 1)
   \<and> cells four_steps_wrapped ! 2 = cells four_steps ! 2"
proof -
  have wf: "well_shaped four_steps" by (simp add: four_steps_def vol_def well_shaped_def)
  have sh: "shape four_steps = (4, 1, 1)" by (simp add: four_steps_def vol_def)
  have "getitem four_steps_wrapped (nat (int 4 + - 1)) 0 0
          = polynomial_spline [0..<4] (time_series_at four_steps 0 0) (- 1)
        \<and> cells four_steps_wrapped ! 2 = cells four_steps ! 2"
    using negative_index_wraps[OF wf sh, of "- 1" polynomial_spline] four_steps_run by simp
  then show ?thesis using wf sh four_steps_run by simp
qed

end
